theory Spec2Isabelle
  imports Main "HOL-Library.Word"
begin

unbundle bit_operations_syntax

section \<open>Seplos BMS protocol 2.0 client: the frame codec and \<open>bms_command\<close>\<close>

text \<open>
  A shallow embedding of \<^verbatim>\<open>src/seplos.c\<close>. The platform is the one the program is
  written for (Linux, termios): \<^verbatim>\<open>unsigned int\<close> and \<^verbatim>\<open>int\<close> are 32 bits wide,
  \<^verbatim>\<open>uint16_t\<close> is stored little-endian. Whether plain \<^verbatim>\<open>char\<close> is signed depends on
  the target (signed on x86, unsigned on ARM); the functions that read a \<^verbatim>\<open>char\<close> as a
  number take that choice as the parameter \<open>sc\<close>.
\<close>

type_synonym byte = "8 word"
type_synonym uint16 = "16 word"
type_synonym uint = "32 word"

subsection \<open>Data\<close>

text \<open>
  \<^verbatim>\<open>struct _Seplos_2_0\<close> consists of \<^verbatim>\<open>char\<close> members only, so it has no padding. The code
  reads and writes it through pointers to its members and across their boundaries
  (\<^verbatim>\<open>overall_checksum(encoded.version, ...)\<close>, \<^verbatim>\<open>write(fd, &encoded, ...)\<close>), therefore it is
  modelled as the flat sequence of its 4113 bytes, with the member offsets named.
\<close>

type_synonym Seplos_2_0 = "byte list"

definition sizeof_Seplos_2_0 :: nat where "sizeof_Seplos_2_0 = 1 + 2 + 2 + 2 + 2 + 4 + (4095 + 4 + 1)"
definition off_start :: nat where "off_start = 0"
definition off_version :: nat where "off_version = 1"
definition off_address :: nat where "off_address = 3"
definition off_device :: nat where "off_device = 5"
definition off_function :: nat where "off_function = 7"
definition off_length :: nat where "off_length = 9"
definition off_info :: nat where "off_info = 13"

record Seplos_2_0_binary =
  version :: byte
  address :: byte
  device :: byte
  function' :: byte
  length' :: uint16

text \<open>Of \<^verbatim>\<open>enum _seplos_commands\<close>, the command that \<^verbatim>\<open>seplos_protocol_version\<close> sends.\<close>

definition PROTOCOL_VER_GET :: uint where "PROTOCOL_VER_GET = 0x4F"

text \<open>Memory helpers: \<open>store buf off bs\<close> overwrites \<open>buf\<close> from offset \<open>off\<close> with \<open>bs\<close>
  (what \<^verbatim>\<open>memcpy\<close> and \<^verbatim>\<open>read\<close> do to their destination).\<close>

definition store :: "byte list \<Rightarrow> nat \<Rightarrow> byte list \<Rightarrow> byte list" where
  "store buf off bs = take off buf @ bs @ drop (off + length bs) buf"

text \<open>The bytes of an ASCII string literal.\<close>

definition bytes_of :: "string \<Rightarrow> byte list" where
  "bytes_of s = map (\<lambda>c. of_nat (of_char c)) s"

subsection \<open>Hex codec\<close>

text \<open>\<^verbatim>\<open>static const char hex[] = "0123456789ABCDEF";\<close>\<close>

definition hex :: "byte list" where
  "hex = [0x30, 0x31, 0x32, 0x33, 0x34, 0x35, 0x36, 0x37, 0x38, 0x39,
          0x41, 0x42, 0x43, 0x44, 0x45, 0x46]"

definition hex1 :: "byte \<Rightarrow> byte list" where
  "hex1 v = [hex ! unat (v AND 0xf)]"

definition hex2 :: "byte \<Rightarrow> byte list" where
  "hex2 v = [hex ! unat (drop_bit 4 v AND 0xf), hex ! unat (v AND 0xf)]"

definition hex4 :: "uint16 \<Rightarrow> byte list" where
  "hex4 v = [hex ! unat (drop_bit 12 v AND 0xf), hex ! unat (drop_bit 8 v AND 0xf),
             hex ! unat (drop_bit 4 v AND 0xf), hex ! unat (v AND 0xf)]"

text \<open>
  \<^verbatim>\<open>hex1b(uint8_t c, bool * invalid)\<close>: the flag behind the pointer is passed in and
  returned. The letter branches add \<^verbatim>\<open>0x10\<close>, as the source does.
\<close>

definition hex1b :: "byte \<Rightarrow> bool \<Rightarrow> byte \<times> bool" where
  "hex1b c invalid =
     (if 0x30 \<le> c \<and> c \<le> 0x39 then (c - 0x30, invalid)
      else if 0x61 \<le> c \<and> c \<le> 0x66 then (c - 0x61 + 0x10, invalid)
      else if 0x41 \<le> c \<and> c \<le> 0x46 then (c - 0x41 + 0x10, invalid)
      else (0, True))"

text \<open>
  \<^verbatim>\<open>hex2b\<close> joins its two operands with C's logical \<^verbatim>\<open>||\<close>: the value is 0 or 1, and the
  right operand is evaluated only when the left one is zero. The operands are the
  \<^verbatim>\<open>uint8_t\<close> results promoted to \<^verbatim>\<open>int\<close> and shifted.
\<close>

definition hex2b :: "byte list \<Rightarrow> bool \<Rightarrow> byte \<times> bool" where
  "hex2b ascii invalid =
     (case hex1b (ascii ! 0) invalid of (h0, inv0) \<Rightarrow>
        if push_bit 4 (ucast h0 :: uint) \<noteq> 0 then (1, inv0)
        else (case hex1b (ascii ! 1) inv0 of (h1, inv1) \<Rightarrow>
                (if (ucast h1 :: uint) \<noteq> 0 then 1 else 0, inv1)))"

definition hex4b :: "byte list \<Rightarrow> bool \<Rightarrow> uint16 \<times> bool" where
  "hex4b ascii invalid =
     (case hex1b (ascii ! 0) invalid of (h0, inv0) \<Rightarrow>
        if push_bit 12 (ucast h0 :: uint) \<noteq> 0 then (1, inv0)
        else (case hex1b (ascii ! 1) inv0 of (h1, inv1) \<Rightarrow>
          if push_bit 8 (ucast h1 :: uint) \<noteq> 0 then (1, inv1)
          else (case hex1b (ascii ! 2) inv1 of (h2, inv2) \<Rightarrow>
            if push_bit 4 (ucast h2 :: uint) \<noteq> 0 then (1, inv2)
            else (case hex1b (ascii ! 3) inv2 of (h3, inv3) \<Rightarrow>
              (if (ucast h3 :: uint) \<noteq> 0 then 1 else 0, inv3)))))"

subsection \<open>Checksums\<close>

definition length_checksum :: "uint \<Rightarrow> uint" where
  "length_checksum len =
     (let sum = (drop_bit 8 len AND 0xf) + (drop_bit 4 len AND 0x0f) + (len AND 0x0f)
      in push_bit 12 (NOT (sum AND 0xff) + 1) AND 0xf000)"

text \<open>The value of a \<^verbatim>\<open>char\<close> added to an \<^verbatim>\<open>unsigned int\<close>: sign-extended where plain
  \<^verbatim>\<open>char\<close> is signed (\<open>sc\<close>), zero-extended otherwise.\<close>

definition char_value :: "bool \<Rightarrow> byte \<Rightarrow> uint" where
  "char_value sc c = (if sc then scast c else ucast c)"

text \<open>The loop of \<^verbatim>\<open>overall_checksum\<close>: \<open>i\<close> counts up to \<open>len\<close>, \<open>acc\<close> is the source's
  \<^verbatim>\<open>sum\<close>, and \<open>data\<close> is what lies at and behind the moving pointer.\<close>

function overall_checksum_loop :: "bool \<Rightarrow> byte list \<Rightarrow> uint \<Rightarrow> uint \<Rightarrow> uint \<Rightarrow> uint" where
  "overall_checksum_loop sc data len i acc =
     (if i < len then overall_checksum_loop sc (tl data) len (i + 1) (acc + char_value sc (hd data))
      else acc)"
  by pat_completeness auto
termination
proof (relation "measure (\<lambda>(sc, data, len, i, acc). unat len - unat i)")
  show "wf (measure (\<lambda>(sc :: bool, data :: byte list, len :: uint, i :: uint, acc :: uint).
                      unat len - unat i))"
    by simp
next
  fix sc :: bool and data :: "byte list" and len i acc :: uint
  assume "i < len"
  then have lt: "unat i < unat len"
    by (simp add: word_less_nat_alt)
  moreover have "unat len < 2 ^ 32"
    using unsigned_less [of len] by simp
  ultimately have "unat (i + 1) = unat i + 1"
    by (simp add: unat_word_ariths)
  with lt show "((sc, tl data, len, i + 1, acc + char_value sc (hd data)), (sc, data, len, i, acc))
                \<in> measure (\<lambda>(sc, data, len, i, acc). unat len - unat i)"
    by simp
qed

declare overall_checksum_loop.simps [simp del]

definition overall_checksum :: "bool \<Rightarrow> byte list \<Rightarrow> uint \<Rightarrow> uint" where
  "overall_checksum sc data len = NOT (overall_checksum_loop sc data len 0 0) + 1"

subsection \<open>The transport\<close>

text \<open>
  The serial line behind \<^verbatim>\<open>fd\<close> is the environment of \<^verbatim>\<open>bms_command\<close>. A \<open>transport\<close>
  fixes how it answers the calls of one transaction: the value \<^verbatim>\<open>write\<close> returns, and for
  each of the two \<^verbatim>\<open>read\<close> calls either a failure (\<open>None\<close>, the call returns -1) or the bytes
  that arrive before the alarm. The calls made on \<^verbatim>\<open>fd\<close> are recorded in order; the
  \<^verbatim>\<open>signal\<close> and \<^verbatim>\<open>alarm\<close> calls around each read are not calls on the transport and are
  left out.
\<close>

record transport =
  write_ret :: int
  read_header :: "byte list option"
  read_tail :: "byte list option"

datatype call = Tcflush | Write "byte list" | Tcdrain | Read nat

text \<open>\<^verbatim>\<open>read(fd, buf, count)\<close>: the return value and the bytes stored at \<^verbatim>\<open>buf\<close>; never more
  than \<open>count\<close> bytes.\<close>

definition do_read :: "byte list option \<Rightarrow> nat \<Rightarrow> int \<times> byte list" where
  "do_read arriving count =
     (case arriving of
        None \<Rightarrow> (- 1, [])
      | Some bs \<Rightarrow> (int (length (take count bs)), take count bs))"

subsection \<open>Outcomes\<close>

text \<open>
  Every failure path of \<^verbatim>\<open>bms_command\<close> returns -1; the paths differ in the diagnostic
  they print, which \<open>failure\<close> names: \<^verbatim>\<open>perror("read")\<close>, the first
  \<^verbatim>\<open>"Non-hexidecimal character ..."\<close>, \<^verbatim>\<open>"Length code incorrect."\<close>, \<^verbatim>\<open>perror("info read")\<close>,
  the second \<^verbatim>\<open>"Non-hexidecimal character ..."\<close> and \<^verbatim>\<open>"Checksum mismatch."\<close>.
  \<open>Aborted\<close> is the failed \<^verbatim>\<open>assert\<close> (the source does not define \<^verbatim>\<open>NDEBUG\<close>), \<open>Exited\<close> is
  \<^verbatim>\<open>exit(1)\<close> after a short write, and \<open>Status f\<close> is \<^verbatim>\<open>return r.function\<close>.
\<close>

datatype failure =
  ReadFailed | HeaderNotHex | LengthCodeIncorrect | InfoReadFailed | InfoNotHex | ChecksumMismatch

datatype outcome = Aborted | Exited | Failed failure | Status byte

text \<open>The \<^verbatim>\<open>int\<close> that \<^verbatim>\<open>bms_command\<close> returns, where it returns.\<close>

fun return_value :: "outcome \<Rightarrow> int option" where
  "return_value Aborted = None"
| "return_value Exited = None"
| "return_value (Failed f) = Some (- 1)"
| "return_value (Status f) = Some (uint f)"

text \<open>
  What one call of \<^verbatim>\<open>bms_command\<close> does: the calls it made on the transport, the contents
  of the caller's \<^verbatim>\<open>result\<close> buffer afterwards, and how the call ended; \<open>None\<close> there
  means that the call never ends.
\<close>

record run =
  calls :: "call list"
  result :: Seplos_2_0
  outcome :: "outcome option"

subsection \<open>\<^verbatim>\<open>bms_command\<close>\<close>

text \<open>Lines 178 to 182: the binary request \<^verbatim>\<open>s\<close>. \<open>info_length\<close> is the number of bytes at
  \<^verbatim>\<open>info\<close> (a caller cannot pass \<open>2 ^ 32\<close> or more); the arithmetic on it is that of
  \<^verbatim>\<open>unsigned int\<close>, and the assignments to the \<^verbatim>\<open>uint8_t\<close> and \<^verbatim>\<open>uint16_t\<close> members
  truncate.\<close>

definition request :: "uint \<Rightarrow> uint \<Rightarrow> nat \<Rightarrow> Seplos_2_0_binary" where
  "request addr command info_length =
     \<lparr>version = 0x20,
      address = ucast addr,
      device = 0x46,
      function' = ucast command,
      length' = ucast (length_checksum (of_nat info_length * 2) OR
                       ((of_nat info_length * 2) AND 0x0fff))\<rparr>"

text \<open>Lines 174 and 184 to 190: \<^verbatim>\<open>encoded\<close>, zero-initialised, after the header fields and
  the start byte have been written.\<close>

definition encode_header :: "Seplos_2_0_binary \<Rightarrow> Seplos_2_0" where
  "encode_header s =
     [0x7E] @ hex2 (version s) @ hex2 (address s) @ hex2 (device s) @ hex2 (function' s) @
     hex4 (length' s) @ replicate (4095 + 4 + 1) 0"

text \<open>
  Lines 193 to 200. The pointer \<^verbatim>\<open>i\<close> is an offset into \<^verbatim>\<open>encoded\<close>. The info bytes are
  copied as they are; the checksum is stored through a \<^verbatim>\<open>uint16_t\<close> pointer, that is into
  two bytes, after which \<^verbatim>\<open>i\<close> moves on by four; the carriage return follows. The buffer
  and the final value of \<^verbatim>\<open>i\<close> are returned.
\<close>

definition encode_tail :: "bool \<Rightarrow> Seplos_2_0 \<Rightarrow> byte list \<Rightarrow> Seplos_2_0 \<times> nat" where
  "encode_tail sc encoded info =
     (let i = off_info;
          e1 = store encoded i info;
          i = i + length info;
          ck = (ucast (overall_checksum sc (drop off_version e1) (of_nat (length info) + 12))
                  :: uint16);
          e2 = store e1 i [ucast ck, ucast (drop_bit 8 ck)];
          i = i + 4;
          e3 = store e2 i [0x0D];
          i = i + 1
      in (e3, i))"

text \<open>Lines 229 to 238: the start byte and the header fields are taken from \<^verbatim>\<open>encoded\<close>, as
  in the source.\<close>

definition decode_header :: "Seplos_2_0 \<Rightarrow> Seplos_2_0_binary \<times> bool" where
  "decode_header encoded =
     (let invalid = (encoded ! off_start \<noteq> 0x7E);
          (v, invalid) = hex2b (take 2 (drop off_version encoded)) invalid;
          (a, invalid) = hex2b (take 2 (drop off_address encoded)) invalid;
          (d, invalid) = hex2b (take 2 (drop off_device encoded)) invalid;
          (f, invalid) = hex2b (take 2 (drop off_function encoded)) invalid;
          (l, invalid) = hex4b (take 4 (drop off_length encoded)) invalid
      in (\<lparr>version = v, address = a, device = d, function' = f, length' = l\<rparr>, invalid))"

text \<open>The test of line 263 on one byte: \<open>True\<close> where the byte is let through.\<close>

definition passes_line_263 :: "byte \<Rightarrow> bool" where
  "passes_line_263 c \<longleftrightarrow>
     (0x30 \<le> c \<and> 0x39 < c) \<or> (0x61 \<le> c \<and> c \<le> 0x66) \<or> (0x41 \<le> c \<and> c \<le> 0x46)"

text \<open>
  Lines 261 to 267: \<^verbatim>\<open>for ( unsigned int j = 0; j < r.length + 4; i++ )\<close>. The step
  advances \<^verbatim>\<open>i\<close> and leaves \<^verbatim>\<open>j\<close> alone. \<open>Some True\<close>: the body returned -1;
  \<open>Some False\<close>: the loop condition became false; \<open>None\<close>: the loop runs forever.
\<close>

partial_function (option) validate_loop :: "Seplos_2_0 \<Rightarrow> uint \<Rightarrow> uint \<Rightarrow> nat \<Rightarrow> bool option" where
  "validate_loop result' bound j i =
     (if j < bound then
        (if \<not> passes_line_263 (result' ! (off_info + unat j)) then Some True
         else validate_loop result' bound j (i + 1))
      else Some False)"

text \<open>\<^verbatim>\<open>*(uint16_t *)&buf[k]\<close>, little-endian.\<close>

definition load16 :: "byte list \<Rightarrow> nat \<Rightarrow> uint16" where
  "load16 buf k = ucast (buf ! k) OR push_bit 8 (ucast (buf ! (k + 1)))"

text \<open>Lines 261 to 278: the loop, the checksum comparison and the return of
  \<^verbatim>\<open>r.function\<close>.\<close>

definition validate :: "bool \<Rightarrow> Seplos_2_0 \<Rightarrow> nat \<Rightarrow> Seplos_2_0_binary \<Rightarrow> nat \<Rightarrow> outcome option" where
  "validate sc result' info_length r i =
     (case validate_loop result' (ucast (length' r) + 4) 0 i of
        None \<Rightarrow> None
      | Some True \<Rightarrow> Some (Failed InfoNotHex)
      | Some False \<Rightarrow>
          (let checksum = load16 result' (off_info + info_length)
           in if ucast checksum \<noteq>
                   overall_checksum sc (drop off_version result') (of_nat info_length + 12)
              then Some (Failed ChecksumMismatch)
              else Some (Status (function' r))))"

text \<open>
  The whole function. \<open>fd\<close> is the transport, \<open>info\<close> the \<^verbatim>\<open>info_length\<close> bytes the caller
  passes, \<open>result0\<close> the contents of the caller's \<^verbatim>\<open>result\<close> buffer on entry.
\<close>

definition bms_command ::
  "bool \<Rightarrow> transport \<Rightarrow> uint \<Rightarrow> uint \<Rightarrow> byte list \<Rightarrow> Seplos_2_0 \<Rightarrow> run" where
  "bms_command sc fd addr command info result0 =
     (let info_length = length info;
          s = request addr command info_length;
          encoded = encode_header s
      in if \<not> info_length < 4096
         then \<lparr>calls = [], result = result0, outcome = Some Aborted\<rparr>
         else
           let (encoded, i) = encode_tail sc encoded info;
               cs = [Tcflush, Write (take (info_length + 18) encoded)]
           in if write_ret fd < 18
              then \<lparr>calls = cs, result = result0, outcome = Some Exited\<rparr>
              else
                let cs = cs @ [Tcdrain, Read 18];
                    (ret, got) = do_read (read_header fd) 18;
                    result1 = store result0 0 got
                in if ret \<noteq> 18
                   then \<lparr>calls = cs, result = result1, outcome = Some (Failed ReadFailed)\<rparr>
                   else
                     let (r, invalid) = decode_header encoded
                     in if invalid
                        then \<lparr>calls = cs, result = result1,
                              outcome = Some (Failed HeaderNotHex)\<rparr>
                        else if length_checksum (ucast (length' s) AND 0x0fff) \<noteq>
                                ucast (length' s) AND 0xf000
                        then \<lparr>calls = cs, result = result1,
                              outcome = Some (Failed LengthCodeIncorrect)\<rparr>
                        else
                          let cs = cs @ [Read (unat (length' r))];
                              (ret, got) = do_read (read_tail fd) (unat (length' r));
                              result2 = store result1 (off_info + 5) got
                          in if ret \<noteq> uint (length' r)
                             then \<lparr>calls = cs, result = result2,
                                   outcome = Some (Failed InfoReadFailed)\<rparr>
                             else \<lparr>calls = cs, result = result2,
                                   outcome = validate sc result2 info_length r i\<rparr>)"

subsection \<open>Names for parts of a run\<close>

text \<open>
  The thirteen bytes that lines 184 to 190 put in front of \<^verbatim>\<open>encoded.info\<close>; the whole of
  \<^verbatim>\<open>encoded\<close> as it stands when \<^verbatim>\<open>write\<close> is called; the bytes that call passes (the first
  \<^verbatim>\<open>info_length + 18\<close> of \<^verbatim>\<open>encoded\<close>); and the binary header \<^verbatim>\<open>r\<close> that lines 234 to 238
  compute. Each is the subterm of \<open>bms_command\<close> it names, which the lemma
  \<open>bms_command_accepted\<close> below shows.
\<close>

definition header13 :: "Seplos_2_0_binary \<Rightarrow> byte list" where
  "header13 s =
     [0x7E] @ hex2 (version s) @ hex2 (address s) @ hex2 (device s) @ hex2 (function' s) @
     hex4 (length' s)"

definition encoded_request :: "bool \<Rightarrow> uint \<Rightarrow> uint \<Rightarrow> byte list \<Rightarrow> Seplos_2_0" where
  "encoded_request sc addr command info =
     fst (encode_tail sc (encode_header (request addr command (length info))) info)"

definition wire_frame :: "bool \<Rightarrow> uint \<Rightarrow> uint \<Rightarrow> byte list \<Rightarrow> byte list" where
  "wire_frame sc addr command info =
     take (length info + 18) (encoded_request sc addr command info)"

definition decoded :: "bool \<Rightarrow> uint \<Rightarrow> uint \<Rightarrow> byte list \<Rightarrow> Seplos_2_0_binary" where
  "decoded sc addr command info = fst (decode_header (encoded_request sc addr command info))"

section \<open>Properties\<close>

subsection \<open>Words\<close>

lemma unat_ucast_16_32: "unat (ucast (l :: uint16) :: uint) = unat l"
proof -
  have "unat l < 2 ^ 16"
    using unsigned_less [of l] by simp
  then have "unat l < 2 ^ 32"
    by simp
  then have "take_bit 32 (unat l) = unat l"
    by (rule take_bit_nat_eq_self)
  then show ?thesis
    by (simp add: unsigned_ucast_eq)
qed

lemma nibble_less_16:
  fixes v :: byte
  shows "unat (v AND 0xf) < 16"
proof -
  have "v AND 0xf \<le> 0xf"
    by (rule word_and_le1)
  then show ?thesis
    by (simp add: word_le_nat_alt)
qed

lemma nibble16_less_16:
  fixes v :: uint16
  shows "unat (v AND 0xf) < 16"
proof -
  have "v AND 0xf \<le> 0xf"
    by (rule word_and_le1)
  then show ?thesis
    by (simp add: word_le_nat_alt)
qed

lemma loop_bound_positive: "(0 :: uint) < ucast (l :: uint16) + 4"
proof -
  have "unat l < 2 ^ 16"
    using unsigned_less [of l] by simp
  then have "unat (ucast l + 4 :: uint) = unat l + 4"
    by (simp add: unat_word_ariths unat_ucast_16_32)
  then show ?thesis
    by (simp add: word_less_nat_alt)
qed

subsection \<open>The length checksum\<close>

lemma mask_12: "(0xfff :: uint) = mask 12"
  by (simp add: mask_eq_exp_minus_1)

lemma mask_4: "(0xf :: uint) = mask 4"
  by (simp add: mask_eq_exp_minus_1)

text \<open>The result occupies bits 12 to 15 only, and depends on the low twelve bits of the
  argument only.\<close>

lemma length_checksum_high: "length_checksum x AND 0xf000 = length_checksum x"
  by (simp add: length_checksum_def Let_def and.assoc)

lemma length_checksum_low: "length_checksum x AND 0x0fff = 0"
proof -
  have "length_checksum x AND 0x0fff = (length_checksum x AND 0xf000) AND 0x0fff"
    by (simp only: length_checksum_high)
  also have "\<dots> = length_checksum x AND (0xf000 AND 0x0fff)"
    by (simp only: and.assoc)
  also have "\<dots> = 0"
    by simp
  finally show ?thesis .
qed

lemma length_checksum_low12: "length_checksum (x AND 0x0fff) = length_checksum x"
proof -
  have a: "drop_bit 8 (x AND 0xfff) AND 0xf = drop_bit 8 x AND 0xf"
    unfolding mask_12 mask_4 by (rule bit_word_eqI) (auto simp: bit_simps)
  have b: "drop_bit 4 (x AND 0xfff) AND 0xf = drop_bit 4 x AND 0xf"
    unfolding mask_12 mask_4 by (rule bit_word_eqI) (auto simp: bit_simps)
  have c: "(x AND 0xfff) AND 0xf = x AND 0xf"
    unfolding mask_12 mask_4 by (rule bit_word_eqI) (auto simp: bit_simps)
  show ?thesis
    unfolding length_checksum_def Let_def a b c ..
qed

text \<open>In bits 12 to 15 stands the low nibble of the two's complement of the sum of the three
  low nibbles of the argument.\<close>

lemma length_checksum_formula:
  "length_checksum n =
     push_bit 12 ((- ((drop_bit 8 n AND 0xf) + (drop_bit 4 n AND 0xf) + (n AND 0xf))) AND 0xf)"
proof -
  define s where "s = (drop_bit 8 n AND 0xf) + (drop_bit 4 n AND 0xf) + (n AND 0xf)"
  have neg: "NOT s + 1 = - s"
    by (rule minus_eq_not_plus_1 [symmetric])
  have m: "(0xf000 :: uint) = push_bit 12 (mask 4)"
    by (simp add: mask_eq_exp_minus_1)
  have shift: "push_bit 12 x AND 0xf000 = push_bit 12 (x AND 0xf)" for x :: uint
    unfolding m mask_4 by (simp only: push_bit_and)
  have nib: "unat (x AND 0xf) \<le> 15" for x :: uint
  proof -
    have "x AND 0xf \<le> 0xf"
      by (rule word_and_le1)
    then show ?thesis
      by (simp add: word_le_nat_alt)
  qed
  have "unat s \<le> 45"
    unfolding s_def using nib [of "drop_bit 8 n"] nib [of "drop_bit 4 n"] nib [of n]
    by (simp add: unat_word_ariths)
  then have "s < 2 ^ 8"
    by (simp add: word_less_nat_alt)
  then have "s AND mask 8 = s"
    by (rule less_mask_eq)
  then have low: "s AND 0xff = s"
    by (simp add: mask_eq_exp_minus_1)
  have "length_checksum n = push_bit 12 (NOT (s AND 0xff) + 1) AND 0xf000"
    by (simp only: length_checksum_def Let_def s_def)
  also have "\<dots> = push_bit 12 (- s) AND 0xf000"
    by (simp only: low neg)
  also have "\<dots> = push_bit 12 ((- s) AND 0xf)"
    by (rule shift)
  finally show ?thesis
    by (simp only: s_def)
qed

text \<open>The value assigned to \<^verbatim>\<open>s.length\<close> fits its sixteen bits.\<close>

lemma length_field_fits:
  fixes y :: uint
  defines "L \<equiv> length_checksum y OR (y AND 0x0fff)"
  shows "ucast (ucast L :: uint16) = L"
proof -
  have "length_checksum y AND 0xffff = (length_checksum y AND 0xf000) AND 0xffff"
    by (simp only: length_checksum_high)
  also have "\<dots> = length_checksum y AND (0xf000 AND 0xffff)"
    by (simp only: and.assoc)
  also have "\<dots> = length_checksum y"
    by (simp add: length_checksum_high)
  finally have "L AND 0xffff = L"
    unfolding L_def by (simp add: bit.conj_disj_distrib2 and.assoc)
  moreover have "(ucast (ucast L :: uint16) :: uint) = L AND mask 16"
    by (rule bit_word_eqI) (auto simp: bit_simps)
  ultimately show ?thesis
    by (simp add: mask_eq_exp_minus_1)
qed

text \<open>
  The encoder's invariant: in every length field that \<open>request\<close> builds, the high nibble is
  the length checksum of the low twelve bits. This is also the condition of line 245, which
  is evaluated on \<^verbatim>\<open>s.length\<close>: it holds for every request.
\<close>

lemma request_length_code:
  "length_checksum (ucast (length' (request addr command n)) AND 0x0fff) =
   ucast (length' (request addr command n)) AND 0xf000"
proof -
  define y :: uint where "y = of_nat n * 2"
  define L where "L = length_checksum y OR (y AND 0x0fff)"
  have u: "(ucast (length' (request addr command n)) :: uint) = L"
    unfolding request_def L_def y_def using length_field_fits [of "of_nat n * 2"] by simp
  have lo: "L AND 0x0fff = y AND 0x0fff"
    unfolding L_def by (simp add: bit.conj_disj_distrib2 length_checksum_low and.assoc)
  have hi: "L AND 0xf000 = length_checksum y"
    unfolding L_def by (simp add: bit.conj_disj_distrib2 length_checksum_high and.assoc)
  show ?thesis
    unfolding u lo hi by (rule length_checksum_low12)
qed

subsection \<open>The hex codec\<close>

lemma length_hex2 [simp]: "length (hex2 v) = 2"
  by (simp add: hex2_def)

lemma length_hex4 [simp]: "length (hex4 v) = 4"
  by (simp add: hex4_def)

lemma length_bytes_of [simp]: "length (bytes_of s) = length s"
  by (simp add: bytes_of_def)

text \<open>\<open>hex1b\<close> is right on the digits, and raises the flag for exactly the characters that
  are not hex characters.\<close>

lemma hex1b_digit: "0x30 \<le> c \<Longrightarrow> c \<le> 0x39 \<Longrightarrow> hex1b c iv = (c - 0x30, iv)"
  by (simp add: hex1b_def)

lemma hex1b_flags_exactly_non_hex:
  "snd (hex1b c False) \<longleftrightarrow>
     \<not> ((0x30 \<le> c \<and> c \<le> 0x39) \<or> (0x61 \<le> c \<and> c \<le> 0x66) \<or> (0x41 \<le> c \<and> c \<le> 0x46))"
  by (simp add: hex1b_def)

text \<open>What \<open>hex1b\<close> makes of the sixteen characters of the table: the digits come back,
  the letters come back six too large.\<close>

lemma hex1b_hex:
  assumes "k < 16"
  shows "hex1b (hex ! k) iv = (if k < 10 then of_nat k else of_nat k + 6, iv)"
proof -
  from assms
  have "k = 0 \<or> k = 1 \<or> k = 2 \<or> k = 3 \<or> k = 4 \<or> k = 5 \<or> k = 6 \<or> k = 7 \<or>
        k = 8 \<or> k = 9 \<or> k = 10 \<or> k = 11 \<or> k = 12 \<or> k = 13 \<or> k = 14 \<or> k = 15"
    by arith
  then show ?thesis
    by (elim disjE) (simp_all add: hex_def hex1b_def)
qed

lemma hex2b_hex2_flag: "snd (hex2b (hex2 v) iv) = iv"
  using nibble_less_16 [of v] nibble_less_16 [of "drop_bit 4 v"]
  by (simp add: hex2b_def hex2_def hex1b_hex split: prod.splits)

lemma hex4b_hex4_flag: "snd (hex4b (hex4 v) iv) = iv"
  using nibble16_less_16 [of v] nibble16_less_16 [of "drop_bit 4 v"]
    nibble16_less_16 [of "drop_bit 8 v"] nibble16_less_16 [of "drop_bit 12 v"]
  by (simp add: hex4b_def hex4_def hex1b_hex split: prod.splits)

text \<open>The values of \<open>hex2b\<close> and \<open>hex4b\<close> are 0 and 1, whatever the characters.\<close>

lemma hex2b_0_or_1: "fst (hex2b cs iv) = 0 \<or> fst (hex2b cs iv) = 1"
  by (simp add: hex2b_def split: prod.splits)

lemma hex4b_0_or_1: "fst (hex4b cs iv) = 0 \<or> fst (hex4b cs iv) = 1"
  by (simp add: hex4b_def split: prod.splits)

subsection \<open>Buffers\<close>

lemma length_header13 [simp]: "length (header13 s) = 13"
  by (simp add: header13_def)

lemma encode_header_split: "encode_header s = header13 s @ replicate 4100 0"
  by (simp add: encode_header_def header13_def)

lemma length_encode_header [simp]: "length (encode_header s) = 4113"
  by (simp add: encode_header_split)

lemma length_store [simp]:
  "off + length bs \<le> length buf \<Longrightarrow> length (store buf off bs) = length buf"
  by (simp add: store_def)

lemma take_store [simp]:
  "k \<le> off \<Longrightarrow> off \<le> length buf \<Longrightarrow> take k (store buf off bs) = take k buf"
  by (simp add: store_def min_def)

lemma field_of_prefix:
  "m + n \<le> k \<Longrightarrow> take n (drop m xs) = take n (drop m (take k xs))"
  by (simp add: drop_take min_def)

lemma encode_tail_prefix:
  assumes "length info < 4096"
  shows "take 13 (fst (encode_tail sc (encode_header s) info)) = header13 s"
  using assms
  by (simp add: encode_tail_def Let_def off_info_def encode_header_split)

text \<open>The layout of \<^verbatim>\<open>encoded\<close> when it is written: header, the info bytes as passed, two
  checksum bytes, two bytes still zero, the carriage return, zeros.\<close>

lemma encoded_request_layout:
  assumes "length info < 4096"
  shows "encoded_request sc addr command info =
    header13 (request addr command (length info)) @ info @
    (let ck = (ucast (overall_checksum sc
                 (drop off_version
                    (store (encode_header (request addr command (length info))) off_info info))
                 (of_nat (length info) + 12)) :: uint16)
     in [ucast ck, ucast (drop_bit 8 ck)]) @ [0, 0] @ [0x0D] @
    replicate (4095 - length info) 0"
  using assms
  by (simp add: encoded_request_def encode_tail_def Let_def encode_header_split store_def
      off_info_def numeral_2_eq_2)

text \<open>An accepted request fills the structure exactly: nothing is written behind it.\<close>

lemma length_encoded_request:
  "length info < 4096 \<Longrightarrow>
   length (encoded_request sc addr command info) = sizeof_Seplos_2_0"
  by (simp add: encoded_request_layout Let_def sizeof_Seplos_2_0_def)

lemma wire_frame_layout:
  assumes "length info < 4096"
  shows "wire_frame sc addr command info =
    header13 (request addr command (length info)) @ info @
    (let ck = (ucast (overall_checksum sc
                 (drop off_version
                    (store (encode_header (request addr command (length info))) off_info info))
                 (of_nat (length info) + 12)) :: uint16)
     in [ucast ck, ucast (drop_bit 8 ck)]) @ [0, 0] @ [0x0D]"
  unfolding wire_frame_def encoded_request_layout [OF assms]
  by (simp add: Let_def)

lemma wire_frame_length:
  "length info < 4096 \<Longrightarrow> length (wire_frame sc addr command info) = length info + 18"
  by (simp add: wire_frame_layout Let_def)

text \<open>The request of \<^verbatim>\<open>seplos_protocol_version\<close>: address 0, \<^verbatim>\<open>PROTOCOL_VER_GET\<close>, the one
  info byte \<^verbatim>\<open>00\<close>.\<close>

lemma wire_frame_example:
  "wire_frame sc 0 PROTOCOL_VER_GET [0] =
    [0x7E, 0x32, 0x30, 0x30, 0x30, 0x34, 0x36, 0x34, 0x46, 0x45, 0x30, 0x30, 0x32,
     0x00, 0x83, 0xFD, 0x00, 0x00, 0x0D]"
  by (cases sc)
    (simp_all add: wire_frame_layout header13_def Let_def encode_header_def
      request_def PROTOCOL_VER_GET_def length_checksum_def hex2_def hex4_def hex_def
      store_def off_info_def off_version_def overall_checksum_def overall_checksum_loop.simps
      char_value_def)

subsection \<open>The header that is decoded\<close>

lemma decode_header_prefix:
  assumes "take 13 enc = header13 s"
  shows "decode_header enc =
    (\<lparr>version = fst (hex2b (hex2 (version s)) False),
      address = fst (hex2b (hex2 (address s)) False),
      device = fst (hex2b (hex2 (device s)) False),
      function' = fst (hex2b (hex2 (function' s)) False),
      length' = fst (hex4b (hex4 (length' s)) False)\<rparr>, False)"
proof -
  have len: "13 \<le> length enc"
    using arg_cong [OF assms, of length] by simp
  have start: "enc ! 0 = 0x7E"
    using arg_cong [OF assms, of "\<lambda>xs. xs ! 0"] len by (simp add: header13_def)
  have f: "take 2 (drop 1 enc) = hex2 (version s)"
    "take 2 (drop 3 enc) = hex2 (address s)"
    "take 2 (drop 5 enc) = hex2 (device s)"
    "take 2 (drop 7 enc) = hex2 (function' s)"
    "take 4 (drop 9 enc) = hex4 (length' s)"
    by (subst field_of_prefix [where k = 13], simp, simp add: assms header13_def)+
  show ?thesis
    unfolding decode_header_def Let_def off_start_def off_version_def off_address_def
      off_device_def off_function_def off_length_def f start
    by (simp add: case_prod_beta hex2b_hex2_flag hex4b_hex4_flag)
qed

text \<open>Decoding the request never raises the flag: the test of line 240 never fires.\<close>

lemma decode_encoded:
  assumes "length info < 4096"
  shows "decode_header (encoded_request sc addr command info) =
         (decoded sc addr command info, False)"
  unfolding decoded_def encoded_request_def
  by (simp add: decode_header_prefix [OF encode_tail_prefix [OF assms]])

text \<open>Every field of the decoded header is 0 or 1; the second \<^verbatim>\<open>read\<close> therefore asks for
  at most one byte.\<close>

lemma decoded_length_0_or_1:
  "length' (fst (decode_header enc)) = 0 \<or> length' (fst (decode_header enc)) = 1"
  using hex4b_0_or_1 by (simp add: decode_header_def Let_def case_prod_beta)

lemma decoded_version_0_or_1:
  "version (fst (decode_header enc)) = 0 \<or> version (fst (decode_header enc)) = 1"
  using hex2b_0_or_1 by (simp add: decode_header_def Let_def case_prod_beta)

lemma decoded_function_0_or_1:
  "function' (fst (decode_header enc)) = 0 \<or> function' (fst (decode_header enc)) = 1"
  using hex2b_0_or_1 by (simp add: decode_header_def Let_def case_prod_beta)

text \<open>Hence no request is decoded to itself: the version \<^verbatim>\<open>0x20\<close> never comes back.\<close>

lemma no_request_round_trips:
  "fst (decode_header (encoded_request sc addr command info)) \<noteq>
   request addr command (length info)"
proof
  assume "fst (decode_header (encoded_request sc addr command info)) =
          request addr command (length info)"
  then have "version (fst (decode_header (encoded_request sc addr command info))) = 0x20"
    by (simp add: request_def)
  with decoded_version_0_or_1 [of "encoded_request sc addr command info"] show False
    by auto
qed

lemma decoded_example:
  "decoded sc 0 PROTOCOL_VER_GET [0] =
     \<lparr>version = 1, address = 0, device = 1, function' = 1, length' = 1\<rparr>"
  by (simp add: decoded_def decode_header_prefix [OF encode_tail_prefix] encoded_request_def
      request_def PROTOCOL_VER_GET_def length_checksum_def hex2_def hex4_def hex_def
      hex2b_def hex4b_def hex1b_def)

subsection \<open>The loop of lines 261 to 267\<close>

text \<open>
  Where the byte under \<^verbatim>\<open>j\<close> is let through, the loop has no result: a result would have
  to come from a later iteration, and every iteration is in the same state but for \<^verbatim>\<open>i\<close>.
\<close>

lemma validate_loop_stuck:
  assumes "j < bound" and "passes_line_263 (result' ! (off_info + unat j))"
  shows "validate_loop result' bound j i = None"
proof (rule ccontr)
  assume "validate_loop result' bound j i \<noteq> None"
  then obtain y where y: "validate_loop result' bound j i = Some y"
    by auto
  have "\<not> (j < bound \<and> passes_line_263 (result' ! (off_info + unat j)))"
  proof (rule validate_loop.raw_induct
      [where P = "\<lambda>r b j i y. \<not> (j < b \<and> passes_line_263 (r ! (off_info + unat j)))",
        OF _ y])
    fix f :: "Seplos_2_0 \<Rightarrow> uint \<Rightarrow> uint \<Rightarrow> nat \<Rightarrow> bool option"
      and r :: Seplos_2_0 and b j :: uint and i :: nat and y :: bool
    assume IH: "\<And>r b j i y. f r b j i = Some y \<Longrightarrow>
                  \<not> (j < b \<and> passes_line_263 (r ! (off_info + unat j)))"
      and step: "(if j < b then
                    (if \<not> passes_line_263 (r ! (off_info + unat j)) then Some True
                     else f r b j (i + 1))
                  else Some False) = Some y"
    show "\<not> (j < b \<and> passes_line_263 (r ! (off_info + unat j)))"
    proof
      assume stuck: "j < b \<and> passes_line_263 (r ! (off_info + unat j))"
      with step have "f r b j (i + 1) = Some y"
        by simp
      from IH [OF this] stuck show False
        by simp
    qed
  qed
  with assms show False
    by simp
qed

lemma validate_loop_reject:
  "j < bound \<Longrightarrow> \<not> passes_line_263 (result' ! (off_info + unat j)) \<Longrightarrow>
   validate_loop result' bound j i = Some True"
  by (subst validate_loop.simps) simp

lemma validate_loop_done:
  "\<not> j < bound \<Longrightarrow> validate_loop result' bound j i = Some False"
  by (subst validate_loop.simps) simp

text \<open>In \<open>bms_command\<close> the loop starts at \<open>j = 0\<close> below a positive bound, so lines 269
  to 278 are never reached.\<close>

lemma validate_eq:
  "validate sc result' n r i =
     (if passes_line_263 (result' ! off_info) then None else Some (Failed InfoNotHex))"
proof (cases "passes_line_263 (result' ! off_info)")
  case True
  then have "validate_loop result' (ucast (length' r) + 4) 0 i = None"
    by (intro validate_loop_stuck loop_bound_positive) simp
  with True show ?thesis
    by (simp add: validate_def)
next
  case False
  then have "validate_loop result' (ucast (length' r) + 4) 0 i = Some True"
    by (intro validate_loop_reject loop_bound_positive) simp
  with False show ?thesis
    by (simp add: validate_def)
qed

subsection \<open>The paths through \<open>bms_command\<close>\<close>

lemma bms_command_aborted:
  "\<not> length info < 4096 \<Longrightarrow>
   bms_command sc fd addr command info result0 =
     \<lparr>calls = [], result = result0, outcome = Some Aborted\<rparr>"
  by (simp add: bms_command_def Let_def)

lemma bms_command_accepted:
  assumes "length info < 4096"
  shows "bms_command sc fd addr command info result0 =
    (let w = [Tcflush, Write (wire_frame sc addr command info)];
         h = do_read (read_header fd) 18;
         result1 = store result0 0 (snd h);
         r = decoded sc addr command info;
         t = do_read (read_tail fd) (unat (length' r));
         result2 = store result1 (off_info + 5) (snd t)
     in if write_ret fd < 18 then \<lparr>calls = w, result = result0, outcome = Some Exited\<rparr>
        else if fst h \<noteq> 18
        then \<lparr>calls = w @ [Tcdrain, Read 18], result = result1,
              outcome = Some (Failed ReadFailed)\<rparr>
        else if fst t \<noteq> uint (length' r)
        then \<lparr>calls = w @ [Tcdrain, Read 18, Read (unat (length' r))], result = result2,
              outcome = Some (Failed InfoReadFailed)\<rparr>
        else \<lparr>calls = w @ [Tcdrain, Read 18, Read (unat (length' r))], result = result2,
              outcome = validate sc result2 (length info) r
                 (snd (encode_tail sc (encode_header (request addr command (length info)))
                         info))\<rparr>)"
proof -
  have enc: "encode_tail sc (encode_header (request addr command (length info))) info =
      (encoded_request sc addr command info,
       snd (encode_tail sc (encode_header (request addr command (length info))) info))"
    by (simp add: encoded_request_def)
  show ?thesis
    unfolding bms_command_def Let_def
    apply (subst enc)
    apply (simp only: prod.case decode_encoded [OF assms] request_length_code
        wire_frame_def [symmetric])
    apply (simp add: assms case_prod_beta)
    done
qed

lemma bms_command_outcome:
  assumes "length info < 4096"
  shows "outcome (bms_command sc fd addr command info result0) =
    (let h = do_read (read_header fd) 18;
         r = decoded sc addr command info;
         t = do_read (read_tail fd) (unat (length' r));
         result2 = store (store result0 0 (snd h)) (off_info + 5) (snd t)
     in if write_ret fd < 18 then Some Exited
        else if fst h \<noteq> 18 then Some (Failed ReadFailed)
        else if fst t \<noteq> uint (length' r) then Some (Failed InfoReadFailed)
        else if passes_line_263 (result2 ! off_info) then None
        else Some (Failed InfoNotHex))"
  by (simp add: bms_command_accepted [OF assms] Let_def validate_eq)

lemma bms_command_calls:
  assumes "length info < 4096"
  shows "calls (bms_command sc fd addr command info result0) =
    [Tcflush, Write (wire_frame sc addr command info)] @
    (if write_ret fd < 18 then []
     else [Tcdrain, Read 18] @
       (if fst (do_read (read_header fd) 18) = 18
        then [Read (unat (length' (decoded sc addr command info)))] else []))"
  by (simp add: bms_command_accepted [OF assms] Let_def)

lemma header_read_lands:
  assumes "fst (do_read a 18) = 18"
  shows "store (store result0 0 (snd (do_read a 18))) (off_info + 5) t ! off_info =
         snd (do_read a 18) ! 13"
proof -
  from assms have len: "length (snd (do_read a 18)) = 18"
    by (auto simp: do_read_def split: option.splits)
  then show ?thesis
    by (simp add: store_def off_info_def nth_append)
qed

text \<open>
  A completed exchange: the write is accepted and both reads deliver what they ask for.
  Its outcome depends on one byte of the response, the fourteenth, and is either no return
  at all or the failure of line 264.
\<close>

lemma completed_exchange:
  assumes "length info < 4096" and "18 \<le> write_ret fd"
    and "read_header fd = Some hdr" and "18 \<le> length hdr"
    and "read_tail fd = Some rest"
    and "unat (length' (decoded sc addr command info)) \<le> length rest"
  shows "outcome (bms_command sc fd addr command info result0) =
     (if passes_line_263 (hdr ! 13) then None else Some (Failed InfoNotHex))"
proof -
  have h: "do_read (read_header fd) 18 = (18, take 18 hdr)"
    using assms(3,4) by (simp add: do_read_def min_def)
  have t: "fst (do_read (read_tail fd) (unat (length' (decoded sc addr command info)))) =
      uint (length' (decoded sc addr command info))"
    using assms(5,6) by (simp add: do_read_def min_def)
  have "fst (do_read (read_header fd) 18) = 18"
    by (simp add: h)
  from header_read_lands [OF this]
  have b: "store (store result0 0 (take 18 hdr)) (off_info + 5) x ! off_info = hdr ! 13" for x
    by (simp add: h)
  show ?thesis
    using assms(2) by (simp add: bms_command_outcome [OF assms(1)] Let_def h t b)
qed

section \<open>The claims\<close>

text \<open>
  The examples use the request that \<^verbatim>\<open>seplos_protocol_version\<close> sends (address 0,
  \<^verbatim>\<open>PROTOCOL_VER_GET\<close>, info \<^verbatim>\<open>{0x00}\<close>) and responses that are well-formed frames of the
  protocol, checksums included, split into the eighteen bytes of the first \<^verbatim>\<open>read\<close> and the
  one byte the second \<^verbatim>\<open>read\<close> asks for.
\<close>

text \<open>
  C1. The claim: the status \<^verbatim>\<open>bms_command\<close> returns is decoded from the \<^verbatim>\<open>function\<close> field
  of the response, and a status other than Normal is returned as such, not as a failure.
  The code against it: the peer answers \<^verbatim>\<open>~20004602E00200FD3B\<close> and a carriage return, a
  valid frame of status \<^verbatim>\<open>02\<close>. The call takes the failure exit of line 264 and returns
  -1. The field \<^verbatim>\<open>r.function\<close> that line 278 would return is decoded from the request in
  \<^verbatim>\<open>encoded\<close>, and is 1.
\<close>

theorem status_not_taken_from_response:
  "outcome (bms_command sc
      \<lparr>write_ret = 19, read_header = Some (bytes_of ''~20004602E00200FD3''),
       read_tail = Some (bytes_of ''B'')\<rparr>
      0 PROTOCOL_VER_GET [0] result0) = Some (Failed InfoNotHex) \<and>
   return_value (Failed InfoNotHex) = Some (- 1) \<and>
   function' (decoded sc 0 PROTOCOL_VER_GET [0]) = 1"
proof -
  have "bytes_of ''~20004602E00200FD3'' ! 13 = 0x30"
    by (simp add: bytes_of_def)
  then have "\<not> passes_line_263 (bytes_of ''~20004602E00200FD3'' ! 13)"
    by (simp add: passes_line_263_def)
  then show ?thesis
    by (subst completed_exchange [where hdr = "bytes_of ''~20004602E00200FD3''"
          and rest = "bytes_of ''B''"]) (simp_all add: decoded_example)
qed

text \<open>
  C2. The claim: decoding the frame that encodes a valid request gives the request back.
  The code against it: for the request above, \<^verbatim>\<open>s\<close> is version \<^verbatim>\<open>0x20\<close>, address 0, device
  \<^verbatim>\<open>0x46\<close>, function \<^verbatim>\<open>0x4F\<close>, length \<^verbatim>\<open>0xE002\<close>; lines 234 to 238 decode the encoded frame
  to version 1, address 0, device 1, function 1, length 1.
\<close>

theorem header_round_trip_fails:
  "request 0 PROTOCOL_VER_GET 1 =
     \<lparr>version = 0x20, address = 0, device = 0x46, function' = 0x4F, length' = 0xE002\<rparr> \<and>
   decode_header (encoded_request sc 0 PROTOCOL_VER_GET [0]) =
     (\<lparr>version = 1, address = 0, device = 1, function' = 1, length' = 1\<rparr>, False)"
proof -
  have "request 0 PROTOCOL_VER_GET 1 =
     \<lparr>version = 0x20, address = 0, device = 0x46, function' = 0x4F, length' = 0xE002\<rparr>"
    by (simp add: request_def PROTOCOL_VER_GET_def length_checksum_def)
  moreover have "decode_header (encoded_request sc 0 PROTOCOL_VER_GET [0]) =
     (\<lparr>version = 1, address = 0, device = 1, function' = 1, length' = 1\<rparr>, False)"
    using decode_encoded [of "[0]" sc 0 PROTOCOL_VER_GET] by (simp add: decoded_example)
  ultimately show ?thesis
    by simp
qed

text \<open>
  C3. The claim: the nibble decoder returns the value 0 to 15 of a hex character, reports
  exactly the other characters, and the two- and four-character decoders join the shifted
  nibbles bitwise, so that the two hex characters of a byte decode to that byte.
  The code against it: \<^verbatim>\<open>'A'\<close> decodes to 16 and \<^verbatim>\<open>'f'\<close> to 21; the characters \<^verbatim>\<open>20\<close> of the
  byte \<^verbatim>\<open>0x20\<close> decode to 1; \<^verbatim>\<open>1G\<close> decodes to 1 with the flag left clear, the \<^verbatim>\<open>G\<close> never
  being looked at; the characters \<^verbatim>\<open>E002\<close> decode to 1.
\<close>

theorem hex_decoders_wrong_values:
  "hex1b 0x41 False = (0x10, False) \<and>
   hex1b 0x66 False = (0x15, False) \<and>
   hex2b (hex2 0x20) False = (1, False) \<and>
   hex2b (bytes_of ''1G'') False = (1, False) \<and>
   hex4b (hex4 0xE002) False = (1, False)"
  by (simp add: hex1b_def hex2b_def hex4b_def hex2_def hex4_def hex_def bytes_of_def)

text \<open>
  C4. The claim: the frame written has 18 + 2 * len(info) bytes, the checksum being four
  upper-case hex characters after the info region.
  The code against it: for the one info byte \<^verbatim>\<open>00\<close> the \<^verbatim>\<open>write\<close> call passes nineteen bytes,
  not twenty: the header \<^verbatim>\<open>~2000464FE002\<close> (whose length field announces two info
  characters), the info byte as it was passed, the checksum \<^verbatim>\<open>0xFD83\<close> as the two bytes
  \<^verbatim>\<open>83 FD\<close>, two zero bytes, and the carriage return.
\<close>

theorem written_frame_example:
  "take 2 (calls (bms_command sc fd 0 PROTOCOL_VER_GET [0] result0)) =
     [Tcflush,
      Write [0x7E, 0x32, 0x30, 0x30, 0x30, 0x34, 0x36, 0x34, 0x46, 0x45, 0x30, 0x30, 0x32,
             0x00, 0x83, 0xFD, 0x00, 0x00, 0x0D]]"
  by (simp add: bms_command_calls wire_frame_example)

text \<open>
  C5, as amended. For every info sequence of 4096 bytes or more, \<^verbatim>\<open>bms_command\<close> stops at
  its assertion \<^verbatim>\<open>info_length < 4096\<close>, the only size guard it has, and has made no call on
  the transport: no flush, write, drain or read. The caller's buffer is untouched.
\<close>

theorem oversize_request_aborts:
  "4096 \<le> length info \<Longrightarrow>
   bms_command sc fd addr command info result0 =
     \<lparr>calls = [], result = result0, outcome = Some Aborted\<rparr>"
  by (simp add: bms_command_aborted)

text \<open>An instance: 4096 zero bytes.\<close>

theorem oversize_request_aborts_witness:
  "4096 \<le> length (replicate 4096 (0 :: byte)) \<and>
   bms_command True \<lparr>write_ret = 4114, read_header = None, read_tail = None\<rparr>
      0 PROTOCOL_VER_GET (replicate 4096 0) [] =
     \<lparr>calls = [], result = [], outcome = Some Aborted\<rparr>"
  using oversize_request_aborts [of "replicate 4096 0" True
      "\<lparr>write_ret = 4114, read_header = None, read_tail = None\<rparr>" 0 PROTOCOL_VER_GET "[]"]
  by simp

text \<open>
  C5 as it was stated fails at 2048 info bytes, whose nibble count 4096 exceeds \<^verbatim>\<open>0xFFF\<close>:
  the request passes the assertion, the line is flushed, the frame is written and drained,
  and the header read is attempted. With a transport whose read fails the call returns -1
  from line 226.
\<close>

theorem payload_2048_counterexample:
  "0xFFF < 2 * length (replicate 2048 (0 :: byte)) \<and>
   calls (bms_command True \<lparr>write_ret = 2066, read_header = None, read_tail = None\<rparr>
      0 PROTOCOL_VER_GET (replicate 2048 0) []) =
     [Tcflush, Write (wire_frame True 0 PROTOCOL_VER_GET (replicate 2048 0)), Tcdrain,
      Read 18] \<and>
   outcome (bms_command True \<lparr>write_ret = 2066, read_header = None, read_tail = None\<rparr>
      0 PROTOCOL_VER_GET (replicate 2048 0) []) = Some (Failed ReadFailed)"
  by (simp add: bms_command_calls bms_command_outcome Let_def do_read_def)

text \<open>
  C6. The claim: the checksum over the body of the received frame is recomputed and compared
  with the frame's checksum field; the frame validates exactly when they agree, and a
  mismatch gives the checksum error.
  The code against it: whatever the transport delivers, \<^verbatim>\<open>bms_command\<close> neither takes the
  exit of line 271 nor returns from line 278. The comparison of line 270 is not reached, so
  no frame validates and none is refused for its checksum.
\<close>

theorem checksum_comparison_never_reached:
  "outcome (bms_command sc fd addr command info result0) \<noteq> Some (Failed ChecksumMismatch) \<and>
   (\<forall>f. outcome (bms_command sc fd addr command info result0) \<noteq> Some (Status f))"
proof (cases "length info < 4096")
  case True
  then show ?thesis
    by (simp add: bms_command_outcome Let_def)
next
  case False
  then show ?thesis
    by (simp add: bms_command_aborted)
qed

text \<open>
  C7. The claim: every byte of the response's info region is checked to be a hex character,
  and a \<^verbatim>\<open>G\<close> there makes \<^verbatim>\<open>bms_command\<close> report malformed hex.
  The code against it: the peer answers \<^verbatim>\<open>~20004600E002G0FD26\<close> and a carriage return,
  with \<^verbatim>\<open>G\<close> as the first info character. The call never returns.
\<close>

theorem non_hex_info_byte_never_reported:
  "outcome (bms_command sc
      \<lparr>write_ret = 19, read_header = Some (bytes_of ''~20004600E002G0FD2''),
       read_tail = Some (bytes_of ''6'')\<rparr>
      0 PROTOCOL_VER_GET [0] result0) = None"
proof -
  have "bytes_of ''~20004600E002G0FD2'' ! 13 = 0x47"
    by (simp add: bytes_of_def)
  then have "passes_line_263 (bytes_of ''~20004600E002G0FD2'' ! 13)"
    by (simp add: passes_line_263_def)
  then show ?thesis
    by (subst completed_exchange [where hdr = "bytes_of ''~20004600E002G0FD2''"
          and rest = "bytes_of ''6''"]) (simp_all add: decoded_example)
qed

text \<open>
  C8. The claim: the high nibble of a length field is the length checksum of its low twelve
  bits, for every field the encoder emits, and on receipt the checksum is recomputed from
  the received length field and a mismatch is refused with the length checksum error.
  The code against it: the first two parts hold (\<open>length_checksum_formula\<close> and
  \<open>request_length_code\<close> above), but whatever
  the transport delivers, \<^verbatim>\<open>bms_command\<close> never takes the exit of line 246: the test of line
  245 is made on \<^verbatim>\<open>s.length\<close>, the length field it has sent.
\<close>

theorem received_length_code_never_rejected:
  "outcome (bms_command sc fd addr command info result0) \<noteq> Some (Failed LengthCodeIncorrect)"
proof (cases "length info < 4096")
  case True
  then show ?thesis
    by (simp add: bms_command_outcome Let_def)
next
  case False
  then show ?thesis
    by (simp add: bms_command_aborted)
qed

text \<open>
  C9. In every run of \<^verbatim>\<open>bms_command\<close> that reaches the read phase, that is, in which some
  \<^verbatim>\<open>read\<close> is called, the calls on the transport are, in this order and with nothing before,
  between or after them: the flush, the write of the frame, the drain, the read of the
  eighteen header bytes and, once that read has delivered all eighteen, the read of the
  tail.
\<close>

theorem transport_call_order:
  assumes "Read k \<in> set (calls (bms_command sc fd addr command info result0))"
  shows "calls (bms_command sc fd addr command info result0) =
     [Tcflush, Write (wire_frame sc addr command info), Tcdrain, Read 18] @
     (if fst (do_read (read_header fd) 18) = 18
      then [Read (unat (length' (decoded sc addr command info)))] else [])"
proof (cases "length info < 4096")
  case True
  with assms show ?thesis
    by (simp add: bms_command_calls split: if_splits)
next
  case False
  with assms show ?thesis
    by (simp add: bms_command_aborted)
qed

text \<open>An instance: the version request, answered by a well-formed frame.\<close>

theorem transport_call_order_witness:
  "Read 18 \<in> set (calls (bms_command True
      \<lparr>write_ret = 19, read_header = Some (bytes_of ''~20004600E00200FD3''),
       read_tail = Some (bytes_of ''D'')\<rparr> 0 PROTOCOL_VER_GET [0] [])) \<and>
   calls (bms_command True
      \<lparr>write_ret = 19, read_header = Some (bytes_of ''~20004600E00200FD3''),
       read_tail = Some (bytes_of ''D'')\<rparr> 0 PROTOCOL_VER_GET [0] []) =
     [Tcflush,
      Write [0x7E, 0x32, 0x30, 0x30, 0x30, 0x34, 0x36, 0x34, 0x46, 0x45, 0x30, 0x30, 0x32,
             0x00, 0x83, 0xFD, 0x00, 0x00, 0x0D],
      Tcdrain, Read 18, Read 1]"
proof -
  let ?fd = "\<lparr>write_ret = 19, read_header = Some (bytes_of ''~20004600E00200FD3''),
       read_tail = Some (bytes_of ''D'')\<rparr>"
  have r: "Read 18 \<in> set (calls (bms_command True ?fd 0 PROTOCOL_VER_GET [0] []))"
    by (simp add: bms_command_calls)
  from transport_call_order [OF r] show ?thesis
    using r by (simp add: wire_frame_example decoded_example do_read_def)
qed

text \<open>
  C10. The claim: the loop of lines 261 to 267 ends after a bounded number of iterations,
  having examined each of the \<^verbatim>\<open>r.length + 4\<close> positions once.
  The code against it: the loop looks at the byte under \<^verbatim>\<open>j\<close> only, and \<^verbatim>\<open>j\<close> never moves.
  Below the bound it returns -1 in its first iteration where that byte fails the test of
  line 263, and does not end where the byte passes.
\<close>

theorem validate_loop_examines_one_byte:
  "validate_loop result' bound j i =
     (if j < bound
      then if passes_line_263 (result' ! (off_info + unat j)) then None else Some True
      else Some False)"
  by (simp add: validate_loop_stuck validate_loop_reject validate_loop_done)

end
